theory Spec2Isabelle
  imports Main
begin

section \<open>Python strings\<close>

text \<open>
  A Python \<^verbatim>\<open>str\<close> is a sequence of Unicode code points.  The plugin's markers and
  placeholders contain CJK characters and \<^verbatim>\<open>str.strip()\<close> removes Unicode white space,
  so a string is modelled as the list of its code points.
\<close>

type_synonym pystr = "nat list"

definition str :: "string \<Rightarrow> pystr" where
  "str s = map of_char s"

text \<open>The code points for which \<^verbatim>\<open>str.isspace()\<close> holds; these are what \<^verbatim>\<open>strip()\<close> removes.\<close>

definition isspace :: "nat \<Rightarrow> bool" where
  "isspace c = (c \<in> set [9, 10, 11, 12, 13, 28, 29, 30, 31, 32, 133, 160, 5760,
     8192, 8193, 8194, 8195, 8196, 8197, 8198, 8199, 8200, 8201, 8202,
     8232, 8233, 8239, 8287, 12288])"

definition strip :: "pystr \<Rightarrow> pystr" where
  "strip s = rev (dropWhile isspace (rev (dropWhile isspace s)))"

text \<open>\<^verbatim>\<open>sep.join(parts)\<close>\<close>

fun join :: "pystr \<Rightarrow> pystr list \<Rightarrow> pystr" where
  "join sep [] = []"
| "join sep [p] = p"
| "join sep (p # q # ps) = p @ sep @ join sep (q # ps)"

section \<open>The inline image marker\<close>

text \<open>
  \<^verbatim>\<open>image_pattern = re.compile(r"\[..:([^\]]+)\]")\<close> where the two dots stand for the
  characters U+56FE U+7247.  A match at the head of a string is the opening
  \<^verbatim>\<open>[\<close>, these two characters and a colon, a greedy non-empty run of characters other
  than \<^verbatim>\<open>]\<close>, and a closing \<^verbatim>\<open>]\<close>.  The run stops at the first \<^verbatim>\<open>]\<close>, so a match exists
  exactly when that run is non-empty and is followed by a \<^verbatim>\<open>]\<close>.
\<close>

definition marker_open :: pystr where
  "marker_open = [91, 22270, 29255, 58]"

definition match_marker :: "pystr \<Rightarrow> (pystr \<times> pystr) option" where
  "match_marker s =
     (if take (length marker_open) s = marker_open
      then (let t = drop (length marker_open) s;
                name = takeWhile (\<lambda>c. c \<noteq> 93) t;
                rest = dropWhile (\<lambda>c. c \<noteq> 93) t
            in if name \<noteq> [] \<and> rest \<noteq> [] then Some (name, tl rest) else None)
      else None)"

text \<open>\<^verbatim>\<open>image_pattern.findall(s)\<close>: the captured file names of the non-overlapping
  matches, scanning left to right.\<close>

function findall :: "pystr \<Rightarrow> pystr list" where
  "findall [] = []"
| "findall (c # cs) =
     (case match_marker (c # cs) of
        Some (name, rest) \<Rightarrow> name # findall rest
      | None \<Rightarrow> findall cs)"
  by pat_completeness auto
termination
proof (relation "measure length")
  fix c cs x2 name rest
  assume m: "match_marker (c # cs) = Some x2" and x2: "(name, rest) = x2"
  let ?t = "drop (length marker_open) (c # cs)"
  from m x2 have r: "rest = tl (dropWhile (\<lambda>c. c \<noteq> 93) ?t)"
    and ne: "dropWhile (\<lambda>c. c \<noteq> 93) ?t \<noteq> []"
    by (auto simp: match_marker_def Let_def split: if_splits)
  have "length (dropWhile (\<lambda>c. c \<noteq> 93) ?t) \<le> length ?t"
    by (rule length_dropWhile_le)
  moreover from ne have "length rest < length (dropWhile (\<lambda>c. c \<noteq> 93) ?t)"
    by (simp add: r)
  ultimately have "length rest < length (c # cs)" by simp
  then show "(rest, c # cs) \<in> measure length" by simp
qed simp_all

text \<open>\<^verbatim>\<open>image_pattern.sub("", s)\<close>: the string with every match removed.\<close>

function sub :: "pystr \<Rightarrow> pystr" where
  "sub [] = []"
| "sub (c # cs) =
     (case match_marker (c # cs) of
        Some (name, rest) \<Rightarrow> sub rest
      | None \<Rightarrow> c # sub cs)"
  by pat_completeness auto
termination
proof (relation "measure length")
  fix c cs x2 name rest
  assume m: "match_marker (c # cs) = Some x2" and x2: "(name, rest) = x2"
  let ?t = "drop (length marker_open) (c # cs)"
  from m x2 have r: "rest = tl (dropWhile (\<lambda>c. c \<noteq> 93) ?t)"
    and ne: "dropWhile (\<lambda>c. c \<noteq> 93) ?t \<noteq> []"
    by (auto simp: match_marker_def Let_def split: if_splits)
  have "length (dropWhile (\<lambda>c. c \<noteq> 93) ?t) \<le> length ?t"
    by (rule length_dropWhile_le)
  moreover from ne have "length rest < length (dropWhile (\<lambda>c. c \<noteq> 93) ?t)"
    by (simp add: r)
  ultimately have "length rest < length (c # cs)" by simp
  then show "(rest, c # cs) \<in> measure length" by simp
qed simp_all

section \<open>Literals of the source\<close>

definition image_marker :: "pystr \<Rightarrow> pystr" where
  "image_marker filename = marker_open @ filename @ [93]"

definition download_failed :: pystr where
  "download_failed = [91, 22270, 29255, 19979, 36733, 22833, 36133, 93]"

definition user_sent_image :: pystr where
  "user_sent_image = [91, 29992, 25143, 21457, 36865, 20102, 22270, 29255, 93]"

definition latest_only_image :: pystr where
  "latest_only_image =
     [91, 29992, 25143, 26368, 26032, 28040, 24687, 21482, 21457, 36865, 20102, 22270, 29255, 93]"

definition image_glyph :: pystr where
  "image_glyph = [91, 22270, 29255, 93]"

definition user_role :: pystr where
  "user_role = str ''user''"

definition assistant_role :: pystr where
  "assistant_role = str ''assistant''"

definition colon_space :: pystr where
  "colon_space = str '': ''"

section \<open>Media store and turn normalizer\<close>

text \<open>
  The image directory: \<open>files f\<close> is the MIME type and base64 text of the file
  \<^verbatim>\<open>os.path.join(images_dir, f)\<close> when it exists and can be read, joined as they appear
  in the data URI, and \<open>None\<close> otherwise.  \<^verbatim>\<open>_path_to_base64\<close> returns \<^verbatim>\<open>None\<close> for a
  missing file and on every exception.
\<close>

type_synonym media_store = "pystr \<Rightarrow> pystr option"

definition path_to_base64 :: "media_store \<Rightarrow> pystr \<Rightarrow> pystr option" where
  "path_to_base64 files filename =
     (case files filename of
        None \<Rightarrow> None
      | Some body \<Rightarrow> Some (str ''data:'' @ body))"

datatype component =
    Plain pystr
  | Image "pystr option" "pystr option"
  | OtherComponent

text \<open>
  \<^verbatim>\<open>_download_image\<close>: \<open>net url\<close> is the name under which the response body was saved
  when the request answered 200, and \<open>None\<close> for any other status or an exception.
\<close>

definition startswith :: "pystr \<Rightarrow> pystr \<Rightarrow> bool" where
  "startswith s p = (take (length p) s = p)"

definition download_image :: "(pystr \<Rightarrow> pystr option) \<Rightarrow> pystr \<Rightarrow> pystr option" where
  "download_image net url =
     (if url = [] \<or> \<not> (startswith url (str ''http://'') \<or> startswith url (str ''https://''))
      then None else net url)"

text \<open>\<^verbatim>\<open>a or b\<close> on optional strings: \<open>a\<close> when it is truthy, else \<open>b\<close>.\<close>

definition py_or :: "pystr option \<Rightarrow> pystr option \<Rightarrow> pystr option" where
  "py_or a b = (case a of None \<Rightarrow> b | Some x \<Rightarrow> if x = [] then b else Some x)"

definition truthy :: "pystr option \<Rightarrow> bool" where
  "truthy a = (case a of None \<Rightarrow> False | Some x \<Rightarrow> x \<noteq> [])"

text \<open>What one component of the chain appends to \<^verbatim>\<open>parts\<close>.\<close>

definition process_component :: "(pystr \<Rightarrow> pystr option) \<Rightarrow> component \<Rightarrow> pystr list" where
  "process_component net cmp =
     (case cmp of
        Plain t \<Rightarrow> if strip t \<noteq> [] then [strip t] else []
      | Image u f \<Rightarrow>
          (let url_to_download = py_or u f
           in if truthy url_to_download
              then (let saved_filename = download_image net (the url_to_download)
                    in [if truthy saved_filename then image_marker (the saved_filename)
                        else download_failed])
              else [])
      | OtherComponent \<Rightarrow> [])"

definition process_message_chain :: "(pystr \<Rightarrow> pystr option) \<Rightarrow> component list \<Rightarrow> pystr" where
  "process_message_chain net chain = strip (join [32] (concat (map (process_component net) chain)))"

section \<open>Record store\<close>

text \<open>
  A row of \<^verbatim>\<open>chat_logs\<close>.  The table is the list of its rows in insertion order, which
  is the order of the auto-incremented \<^verbatim>\<open>id\<close>.
\<close>

record chat_row =
  session_id :: pystr
  sender_id :: pystr
  sender_name :: "pystr option"
  message_text :: pystr
  timestamp :: int

datatype error = AttributeError | KeyError

text \<open>
  \<^verbatim>\<open>_save_log_to_db\<close>: nothing is inserted for an empty text; a failing insert is logged
  and leaves the table as it was.  \<open>None\<close> is the cursor that \<^verbatim>\<open>_setup_database_and_dirs\<close>
  leaves behind when the initialisation failed.
\<close>

definition save_log_to_db ::
  "chat_row list option \<Rightarrow> pystr \<Rightarrow> pystr \<Rightarrow> pystr option \<Rightarrow> pystr \<Rightarrow> int \<Rightarrow> chat_row list option" where
  "save_log_to_db db_cursor sid sender name text now =
     (if text = [] then db_cursor
      else (case db_cursor of
              None \<Rightarrow> None
            | Some rows \<Rightarrow>
                Some (rows @ [\<lparr>session_id = sid, sender_id = sender, sender_name = name,
                               message_text = text, timestamp = now\<rparr>])))"

text \<open>
  The query of \<^verbatim>\<open>inject_chat_history\<close>:
  \<^verbatim>\<open>WHERE session_id = ? ORDER BY timestamp DESC LIMIT ?\<close>.
  The only sort key is the timestamp.  SQLite scans the table in \<^verbatim>\<open>id\<close> order and sorts
  stably, so rows of equal timestamp come out in insertion order; \<open>sort_key\<close> is the
  stable insertion sort.
\<close>

definition most_recent :: "chat_row list \<Rightarrow> pystr \<Rightarrow> nat \<Rightarrow> chat_row list" where
  "most_recent rows sid lim =
     take lim (sort_key (\<lambda>r. - timestamp r) (filter (\<lambda>r. session_id r = sid) rows))"

definition execute_fetch :: "chat_row list option \<Rightarrow> pystr \<Rightarrow> int \<Rightarrow> error + chat_row list" where
  "execute_fetch db_cursor sid max_history =
     (case db_cursor of
        None \<Rightarrow> Inl AttributeError
      | Some rows \<Rightarrow> Inr (most_recent rows sid (nat (max_history + 1))))"

section \<open>Provider context entries\<close>

datatype part = TextPart pystr | ImagePart pystr

datatype pycontent = Str pystr | Parts "part list"

text \<open>
  A context entry is a dict; the keys \<^verbatim>\<open>role\<close> and \<^verbatim>\<open>content\<close> may be missing, and
  subscripting a missing key raises \<^verbatim>\<open>KeyError\<close>.
\<close>

record ctx =
  role :: "pystr option"
  content :: "pycontent option"

fun is_text :: "part \<Rightarrow> bool" where
  "is_text (TextPart t) = True"
| "is_text (ImagePart u) = False"

fun part_text :: "part \<Rightarrow> pystr" where
  "part_text (TextPart t) = t"
| "part_text (ImagePart u) = []"

text \<open>\<^verbatim>\<open>c if isinstance(c, list) else [{'type': 'text', 'text': str(c)}]\<close>\<close>

fun as_list :: "pycontent \<Rightarrow> part list" where
  "as_list (Parts ps) = ps"
| "as_list (Str s) = [TextPart s]"

section \<open>Decoding a history row\<close>

text \<open>The loop over \<^verbatim>\<open>image_filenames\<close> that keeps the images whose file resolves.\<close>

fun resolve_images :: "media_store \<Rightarrow> pystr list \<Rightarrow> part list" where
  "resolve_images files [] = []"
| "resolve_images files (filename # rest) =
     (if truthy (path_to_base64 files filename)
      then ImagePart (the (path_to_base64 files filename)) # resolve_images files rest
      else resolve_images files rest)"

text \<open>\<^verbatim>\<open>text_part\<close> of a history row, with the placeholder of an image-only row.\<close>

definition history_text_part :: "pystr \<Rightarrow> pystr" where
  "history_text_part text =
     (let image_filenames = findall text;
          text_part = strip (sub text)
      in if image_filenames \<noteq> [] \<and> text_part = [] then user_sent_image else text_part)"

text \<open>\<^verbatim>\<open>content_list\<close> as it stands when \<^verbatim>\<open>if not content_list: continue\<close> is reached.\<close>

definition history_content :: "media_store \<Rightarrow> pystr \<Rightarrow> part list" where
  "history_content files text =
     resolve_images files (findall text)
       @ (if history_text_part text \<noteq> [] then [TextPart (history_text_part text)] else [])"

definition display_name_of :: "pystr option \<Rightarrow> pystr" where
  "display_name_of name = (if truthy name then the name else str ''User'')"

text \<open>The name prefix of a user row: onto element 0 when that is a text part, else a new
  element 0.\<close>

fun prefix_name :: "pystr \<Rightarrow> part list \<Rightarrow> part list" where
  "prefix_name display_name (TextPart t # rest) = TextPart (display_name @ colon_space @ t) # rest"
| "prefix_name display_name content_list = TextPart (display_name @ colon_space) # content_list"

definition role_of :: "pystr \<Rightarrow> chat_row \<Rightarrow> pystr" where
  "role_of bot_self_id row = (if sender_id row = bot_self_id then assistant_role else user_role)"

text \<open>One turn of the history loop: \<open>None\<close> is \<^verbatim>\<open>continue\<close>, otherwise the entry appended
  to \<^verbatim>\<open>history_contexts\<close> and the one appended to \<^verbatim>\<open>text_only_contexts\<close>.\<close>

definition decode_row :: "pystr \<Rightarrow> media_store \<Rightarrow> chat_row \<Rightarrow> (ctx \<times> pystr \<times> pystr) option" where
  "decode_row bot_self_id files row =
     (let r = role_of bot_self_id row;
          content_list = history_content files (message_text row);
          text_only_content =
            strip (concat (replicate (length (findall (message_text row))) image_glyph)
                   @ [32] @ history_text_part (message_text row))
      in if content_list = [] then None
         else if r = user_role
         then (let display_name = display_name_of (sender_name row)
               in Some (\<lparr>role = Some r,
                          content = Some (Parts (prefix_name display_name content_list))\<rparr>,
                        r, display_name @ colon_space @ text_only_content))
         else Some (\<lparr>role = Some r, content = Some (Parts content_list)\<rparr>, r, text_only_content))"

fun decode_history :: "pystr \<Rightarrow> media_store \<Rightarrow> chat_row list \<Rightarrow> ctx list \<times> (pystr \<times> pystr) list" where
  "decode_history bot_self_id files [] = ([], [])"
| "decode_history bot_self_id files (row # rows) =
     (case decode_row bot_self_id files row of
        None \<Rightarrow> decode_history bot_self_id files rows
      | Some (c, t) \<Rightarrow>
          (c # fst (decode_history bot_self_id files rows),
           t # snd (decode_history bot_self_id files rows)))"

section \<open>Enhancing the current turn\<close>

text \<open>\<^verbatim>\<open>for i in range(len(cs) - 1, -1, -1)\<close>: the last index whose entry has role
  \<^verbatim>\<open>user\<close>; \<open>None\<close> is \<^verbatim>\<open>target_index == -1\<close>.\<close>

fun scan_target :: "ctx list \<Rightarrow> nat \<Rightarrow> nat option" where
  "scan_target cs 0 = None"
| "scan_target cs (Suc i) =
     (if role (cs ! i) = Some user_role then Some i else scan_target cs i)"

definition target_index :: "ctx list \<Rightarrow> nat option" where
  "target_index cs = scan_target cs (length cs)"

definition set_content :: "ctx list \<Rightarrow> nat \<Rightarrow> pycontent \<Rightarrow> ctx list" where
  "set_content cs i c = cs[i := (cs ! i)\<lparr>content := Some c\<rparr>]"

text \<open>
  Step 4 on the list that \<^verbatim>\<open>current_turn_contexts\<close> names.  The entries are dicts
  mutated in place; each dict is taken to occur once in the list, so the update is the
  update of that position.
\<close>

definition enhance_current :: "media_store \<Rightarrow> pystr \<Rightarrow> ctx list \<Rightarrow> error + ctx list" where
  "enhance_current files current_message_text cs =
     (let image_filenames = findall current_message_text;
          text_part = strip (sub current_message_text)
      in case target_index cs of
           None \<Rightarrow> Inr cs
         | Some i \<Rightarrow>
             (let cs1 = (if image_filenames \<noteq> [] \<and> text_part = []
                         then set_content cs i (Parts [TextPart latest_only_image])
                         else cs)
              in if image_filenames \<noteq> []
                 then (case content (cs1 ! i) of
                         None \<Rightarrow> Inl KeyError
                       | Some c \<Rightarrow>
                           Inr (set_content cs1 i
                                  (Parts (resolve_images files image_filenames @ as_list c))))
                 else Inr cs1))"

section \<open>Collapsing same-role runs and flattening\<close>

text \<open>
  The loop over \<^verbatim>\<open>final_contexts[1:]\<close>; \<open>merged\<close> is \<^verbatim>\<open>merged_contexts\<close>, never empty.
  Reading \<^verbatim>\<open>['role']\<close> or \<^verbatim>\<open>['content']\<close> of an entry without that key raises.
\<close>

fun merge_loop :: "ctx list \<Rightarrow> ctx list \<Rightarrow> error + ctx list" where
  "merge_loop merged [] = Inr merged"
| "merge_loop merged (current_msg # rest) =
     (let last_msg = last merged
      in case role current_msg of
           None \<Rightarrow> Inl KeyError
         | Some rc \<Rightarrow>
            (case role last_msg of
               None \<Rightarrow> Inl KeyError
             | Some rl \<Rightarrow>
                 if rc = rl
                 then (case content last_msg of
                         None \<Rightarrow> Inl KeyError
                       | Some lc \<Rightarrow>
                          (case content current_msg of
                             None \<Rightarrow> Inl KeyError
                           | Some cc \<Rightarrow>
                               merge_loop
                                 (butlast merged
                                    @ [last_msg\<lparr>content := Some (Parts (as_list lc @ as_list cc))\<rparr>])
                                 rest))
                 else merge_loop (merged @ [current_msg]) rest))"

definition collapse :: "ctx list \<Rightarrow> error + ctx list" where
  "collapse final_contexts =
     (case final_contexts of
        [] \<Rightarrow> Inr []
      | first # rest \<Rightarrow> merge_loop [first] rest)"

text \<open>The body of the last loop: an entry whose content is a list of text parts only gets
  the joined, trimmed string.\<close>

definition flatten_msg :: "ctx \<Rightarrow> ctx" where
  "flatten_msg msg =
     (case content msg of
        Some (Parts ps) \<Rightarrow>
          if list_all is_text ps
          then msg\<lparr>content := Some (Str (strip (join [32] (map part_text ps))))\<rparr>
          else msg
      | _ \<Rightarrow> msg)"

section \<open>The request and the hook\<close>

text \<open>
  \<^verbatim>\<open>req.contexts\<close> holds a reference to a list object, or \<^verbatim>\<open>None\<close>.  List objects live in
  a store, because \<^verbatim>\<open>current_turn_contexts = req.contexts or []\<close> binds a second name to
  the same object when the list is not empty, and \<^verbatim>\<open>req.contexts.clear()\<close> then empties
  that one object.
\<close>

type_synonym addr = nat

datatype pyref = PyNone | ListRef addr

record request_state =
  heap :: "addr \<Rightarrow> ctx list"
  next_addr :: addr
  req_contexts :: pyref
  text_only_history :: "(pystr \<times> pystr) list option"
  logged :: "error list"

record plugin =
  inject_context :: "bool option"
  max_history_messages :: "int option"
  db_cursor :: "chat_row list option"
  images :: media_store

record event =
  self_id :: pystr
  unified_msg_origin :: pystr

text \<open>A list display or a \<^verbatim>\<open>+\<close> of lists makes a new object.\<close>

definition alloc :: "ctx list \<Rightarrow> request_state \<Rightarrow> addr \<times> request_state" where
  "alloc v st =
     (next_addr st, st\<lparr>heap := (heap st)(next_addr st := v), next_addr := Suc (next_addr st)\<rparr>)"

text \<open>\<^verbatim>\<open>req.contexts or []\<close>: the object of \<^verbatim>\<open>req.contexts\<close> itself when it is a non-empty
  list, a new empty list otherwise.\<close>

definition contexts_or_empty :: "request_state \<Rightarrow> addr \<times> request_state" where
  "contexts_or_empty st =
     (case req_contexts st of
        PyNone \<Rightarrow> alloc [] st
      | ListRef a \<Rightarrow> if heap st a \<noteq> [] then (a, st) else alloc [] st)"

text \<open>\<^verbatim>\<open>req.contexts.clear()\<close>\<close>

definition clear_contexts :: "request_state \<Rightarrow> error + request_state" where
  "clear_contexts st =
     (case req_contexts st of
        PyNone \<Rightarrow> Inl AttributeError
      | ListRef a \<Rightarrow> Inr (st\<lparr>heap := (heap st)(a := [])\<rparr>))"

text \<open>The value a reader of \<^verbatim>\<open>req.contexts\<close> sees.\<close>

definition contexts_value :: "request_state \<Rightarrow> ctx list option" where
  "contexts_value st =
     (case req_contexts st of PyNone \<Rightarrow> None | ListRef a \<Rightarrow> Some (heap st a))"

text \<open>
  The \<^verbatim>\<open>try\<close> block.  The result is the exception that left the block, if any, and the
  state at that point.
\<close>

definition inject_body :: "plugin \<Rightarrow> event \<Rightarrow> int \<Rightarrow> request_state \<Rightarrow> error option \<times> request_state" where
  "inject_body self ev max_history st =
     (let bot_self_id = self_id ev;
          (cur, st1) = contexts_or_empty st
      in case clear_contexts st1 of
           Inl e \<Rightarrow> (Some e, st1)
         | Inr st2 \<Rightarrow>
            (case execute_fetch (db_cursor self) (unified_msg_origin ev) max_history of
               Inl e \<Rightarrow> (Some e, st2)
             | Inr [] \<Rightarrow> (None, st2\<lparr>req_contexts := ListRef cur\<rparr>)
             | Inr (current_msg_row # rows) \<Rightarrow>
                (let history_rows = rev rows;
                     (history_contexts, text_only_contexts) =
                        decode_history bot_self_id (images self) history_rows
                 in case enhance_current (images self) (message_text current_msg_row)
                           (heap st2 cur) of
                      Inl e \<Rightarrow> (Some e, st2)
                    | Inr current_turn_contexts \<Rightarrow>
                       (let st3 = st2\<lparr>heap := (heap st2)(cur := current_turn_contexts)\<rparr>;
                            final_contexts = history_contexts @ current_turn_contexts
                        in if final_contexts = []
                           then (None, st3\<lparr>text_only_history := Some text_only_contexts\<rparr>)
                           else (case collapse final_contexts of
                                   Inl e \<Rightarrow> (Some e, st3)
                                 | Inr merged_contexts \<Rightarrow>
                                    (let (a, st4) = alloc (map flatten_msg merged_contexts) st3
                                     in (None, st4\<lparr>req_contexts := ListRef a,
                                                    text_only_history := Some text_only_contexts\<rparr>)))))))"

text \<open>\<^verbatim>\<open>inject_chat_history\<close>: the two early returns, then the \<^verbatim>\<open>try\<close> block whose handler
  logs the exception and returns.\<close>

text \<open>\<^verbatim>\<open>self.config.get('inject_context', True)\<close> and
  \<^verbatim>\<open>self.config.get('max_history_messages', 20)\<close>\<close>

definition config_inject_context :: "plugin \<Rightarrow> bool" where
  "config_inject_context self = (case inject_context self of None \<Rightarrow> True | Some b \<Rightarrow> b)"

definition config_max_history :: "plugin \<Rightarrow> int" where
  "config_max_history self = (case max_history_messages self of None \<Rightarrow> 20 | Some n \<Rightarrow> n)"

definition inject_chat_history :: "plugin \<Rightarrow> event \<Rightarrow> request_state \<Rightarrow> request_state" where
  "inject_chat_history self ev st =
     (if \<not> config_inject_context self then st
      else (let max_history = config_max_history self
            in if max_history \<le> 0 then st
               else (case inject_body self ev max_history st of
                       (None, st') \<Rightarrow> st'
                     | (Some e, st') \<Rightarrow> st'\<lparr>logged := logged st' @ [e]\<rparr>)))"

text \<open>
  What a run of the \<^verbatim>\<open>try\<close> block leaves in \<^verbatim>\<open>req.contexts\<close> when that held a list: the
  flattened collapse of the decoded history when rows were fetched, the empty list
  otherwise.
\<close>

definition written :: "plugin \<Rightarrow> event \<Rightarrow> int \<Rightarrow> ctx list" where
  "written self ev n =
     (case execute_fetch (db_cursor self) (unified_msg_origin ev) n of
        Inl e \<Rightarrow> []
      | Inr [] \<Rightarrow> []
      | Inr (current_msg_row # rows) \<Rightarrow>
          (case collapse (fst (decode_history (self_id ev) (images self) (rev rows))) of
             Inl e \<Rightarrow> []
           | Inr merged \<Rightarrow> map flatten_msg merged))"

text \<open>An entry that has both keys.\<close>

definition keyed :: "ctx \<Rightarrow> bool" where
  "keyed c = (role c \<noteq> None \<and> content c \<noteq> None)"

section \<open>Concrete inputs\<close>

text \<open>A request whose \<^verbatim>\<open>contexts\<close> is the list object at address 0 holding \<open>cs\<close>.\<close>

definition request_of :: "ctx list \<Rightarrow> request_state" where
  "request_of cs =
     \<lparr>heap = (\<lambda>a. [])(0 := cs), next_addr = 1, req_contexts = ListRef 0,
      text_only_history = None, logged = []\<rparr>"

definition user_says :: "pystr \<Rightarrow> ctx" where
  "user_says t = \<lparr>role = Some user_role, content = Some (Str t)\<rparr>"

text \<open>A plugin with the default configuration.\<close>

definition plugin_with :: "chat_row list option \<Rightarrow> media_store \<Rightarrow> plugin" where
  "plugin_with db files =
     \<lparr>inject_context = None, max_history_messages = None, db_cursor = db, images = files\<rparr>"

definition example_event :: event where
  "example_event = \<lparr>self_id = str ''bot'', unified_msg_origin = str ''s1''\<rparr>"

definition row_of :: "pystr \<Rightarrow> pystr option \<Rightarrow> pystr \<Rightarrow> int \<Rightarrow> chat_row" where
  "row_of sender name text ts =
     \<lparr>session_id = str ''s1'', sender_id = sender, sender_name = name,
      message_text = text, timestamp = ts\<rparr>"

text \<open>An image directory holding the one file \<^verbatim>\<open>a.png\<close>, and an empty one.\<close>

definition one_file :: media_store where
  "one_file = (\<lambda>f. None)(str ''a.png'' := Some (str ''image/png;base64,AA==''))"

definition no_files :: media_store where
  "no_files = (\<lambda>f. None)"

text \<open>The content of an entry read as a list of parts, a string counting as one text
  part as in the collapse.\<close>

definition parts_of :: "ctx \<Rightarrow> part list" where
  "parts_of c = (case content c of None \<Rightarrow> [] | Some k \<Rightarrow> as_list k)"

text \<open>Four rows of session \<^verbatim>\<open>s1\<close>: two users, the bot, and the message being answered.\<close>

definition example_rows :: "chat_row list" where
  "example_rows =
     [row_of (str ''u1'') (Some (str ''Alice'')) (str ''hi'') 100,
      row_of (str ''u2'') (Some (str ''Bob'')) (image_marker (str ''a.png'') @ str '' yo'') 101,
      row_of (str ''bot'') (Some (str ''assistant'')) (str ''hello'') 102,
      row_of (str ''u1'') (Some (str ''Alice'')) (str ''bye'') 103]"

text \<open>Two rows of session \<^verbatim>\<open>s1\<close> written within the same second: the bot's reply, then the
  user's next message.\<close>

definition tie_rows :: "chat_row list" where
  "tie_rows =
     [row_of (str ''bot'') (Some (str ''assistant'')) (str ''hello'') 100,
      row_of (str ''u1'') (Some (str ''Alice'')) (image_marker (str ''a.png'')) 100]"

text \<open>A network on which every download succeeds and is saved as \<^verbatim>\<open>a.png\<close>, and an image
  URL.\<close>

definition saves_a_png :: "pystr \<Rightarrow> pystr option" where
  "saves_a_png = (\<lambda>u. Some (str ''a.png''))"

definition example_url :: pystr where
  "example_url = str ''http://h/i.png''"

section \<open>The list behind \<^verbatim>\<open>current_turn_contexts\<close>\<close>

lemma target_index_Nil: "target_index [] = None"
  by (simp add: target_index_def)

lemma enhance_current_Nil: "enhance_current files t [] = Inr []"
  by (simp add: enhance_current_def target_index_Nil Let_def)

lemma after_clear:
  assumes "req_contexts st = ListRef a"
  shows "\<exists>st2. clear_contexts (snd (contexts_or_empty st)) = Inr st2
           \<and> req_contexts st2 = ListRef a \<and> heap st2 a = []
           \<and> heap st2 (fst (contexts_or_empty st)) = []
           \<and> logged st2 = logged st"
  using assms
  by (cases "heap st a = []") (auto simp: contexts_or_empty_def clear_contexts_def alloc_def)

lemma clear_None:
  assumes "req_contexts st = PyNone"
  shows "clear_contexts (snd (contexts_or_empty st)) = Inl AttributeError
     \<and> req_contexts (snd (contexts_or_empty st)) = PyNone \<and> logged (snd (contexts_or_empty st)) = logged st"
  using assms
  by (auto simp: contexts_or_empty_def clear_contexts_def alloc_def)

lemma merge_loop_keyed:
  "list_all keyed merged \<Longrightarrow> list_all keyed rest \<Longrightarrow> merged \<noteq> [] \<Longrightarrow> \<exists>ys. merge_loop merged rest = Inr ys"
proof (induction rest arbitrary: merged)
  case Nil
  then show ?case by simp
next
  case (Cons c rest)
  from Cons.prems have "list_all keyed (butlast merged @ [last merged])" by simp
  then have kb: "list_all keyed (butlast merged)" and kl: "keyed (last merged)"
    by (simp_all del: append_butlast_last_id)
  from Cons.prems have kc: "keyed c" and kr: "list_all keyed rest" by simp_all
  obtain rc cc where c: "role c = Some rc" "content c = Some cc" using kc by (auto simp: keyed_def)
  obtain rl lc where l: "role (last merged) = Some rl" "content (last merged) = Some lc" using kl by (auto simp: keyed_def)
  show ?case
  proof (cases "rc = rl")
    case True
    have "list_all keyed (butlast merged @ [(last merged)\<lparr>content := Some (Parts (as_list lc @ as_list cc))\<rparr>])"
      using kb l by (simp add: keyed_def)
    from Cons.IH[OF this kr] show ?thesis using c l True by (simp add: Let_def)
  next
    case False
    have "list_all keyed (merged @ [c])" using Cons.prems(1) kc by simp
    from Cons.IH[OF this kr] show ?thesis using c l False by (simp add: Let_def)
  qed
qed

lemma collapse_keyed: "list_all keyed xs \<Longrightarrow> \<exists>ys. collapse xs = Inr ys"
  by (cases xs) (auto simp: collapse_def intro: merge_loop_keyed)

lemma decode_row_keyed: "decode_row b files row = Some (c, t) \<Longrightarrow> keyed c"
  by (auto simp: decode_row_def Let_def keyed_def split: if_splits)

lemma decode_history_keyed: "list_all keyed (fst (decode_history b files rows))"
  by (induction rows) (auto split: option.splits dest: decode_row_keyed)


lemma inject_body_ListRef:
  assumes a: "req_contexts st = ListRef a"
  shows "contexts_value (snd (inject_body self ev n st)) = Some (written self ev n)
       \<and> fst (inject_body self ev n st) =
           (case execute_fetch (db_cursor self) (unified_msg_origin ev) n of
              Inl e \<Rightarrow> Some e | Inr rows \<Rightarrow> None)
       \<and> logged (snd (inject_body self ev n st)) = logged st"
proof -
  from after_clear[OF a] obtain st2 where
    cl: "clear_contexts (snd (contexts_or_empty st)) = Inr st2"
    and r2: "req_contexts st2 = ListRef a" and h2: "heap st2 a = []"
    and hc: "heap st2 (fst (contexts_or_empty st)) = []" and l2: "logged st2 = logged st"
    by blast
  show ?thesis
  proof (cases "execute_fetch (db_cursor self) (unified_msg_origin ev) n")
    case (Inl e)
    then show ?thesis using cl r2 h2 l2
      by (simp add: inject_body_def written_def split_def contexts_value_def)
  next
    case (Inr fetched)
    show ?thesis
    proof (cases fetched)
      case Nil
      then show ?thesis using Inr cl r2 h2 hc l2
        by (simp add: inject_body_def written_def split_def contexts_value_def)
    next
      case (Cons cur rows)
      let ?h = "fst (decode_history (self_id ev) (images self) (rev rows))"
      from collapse_keyed[OF decode_history_keyed] obtain ys where ys: "collapse ?h = Inr ys"
        by blast
      show ?thesis
      proof (cases "?h = []")
        case True
        then show ?thesis using Inr Cons cl r2 h2 hc l2 ys
          by (simp add: inject_body_def written_def split_def contexts_value_def
              enhance_current_Nil collapse_def)
      next
        case False
        then show ?thesis using Inr Cons cl r2 h2 hc l2 ys
          by (simp add: inject_body_def written_def split_def contexts_value_def
              enhance_current_Nil alloc_def)
      qed
    qed
  qed
qed

lemma inject_body_PyNone:
  assumes a: "req_contexts st = PyNone"
  shows "contexts_value (snd (inject_body self ev n st)) = None
       \<and> fst (inject_body self ev n st) = Some AttributeError
       \<and> logged (snd (inject_body self ev n st)) = logged st"
  using clear_None[OF a]
  by (simp add: inject_body_def split_def contexts_value_def)

section \<open>Properties of the hook\<close>

text \<open>
  C9.  When the configured \<^verbatim>\<open>max_history_messages\<close> is less than or equal to 0 the hook
  returns before touching anything: the whole request state, and with it the context, is
  the one it was given.
\<close>

theorem disabled_injection_identity:
  assumes "config_max_history self \<le> 0"
  shows "inject_chat_history self ev st = st"
  using assms by (simp add: inject_chat_history_def)

theorem disabled_injection_identity_witness:
  "config_max_history ((plugin_with (Some []) no_files)\<lparr>max_history_messages := Some 0\<rparr>) \<le> 0
   \<and> inject_chat_history ((plugin_with (Some []) no_files)\<lparr>max_history_messages := Some 0\<rparr>)
         example_event (request_of [user_says (str ''hi'')])
       = request_of [user_says (str ''hi'')]"
proof -
  have h: "config_max_history ((plugin_with (Some []) no_files)\<lparr>max_history_messages := Some 0\<rparr>) \<le> 0"
    by (simp add: config_max_history_def plugin_with_def)
  show ?thesis
    using h disabled_injection_identity [OF h, of example_event "request_of [user_says (str ''hi'')]"]
    by simp
qed

text \<open>
  C1.  The record store returns no rows and the framework supplied the one-entry context
  \<^verbatim>\<open>[{'role': 'user', 'content': 'hi'}]\<close>.  The name \<^verbatim>\<open>current_turn_contexts\<close> is bound to the
  request's own list, the clear empties that list, and the assignment on the empty-window
  path hands the emptied list back: the request ends with an empty context, not with the
  context it came with.
\<close>

theorem empty_window_loses_context:
  "contexts_value (request_of [user_says (str ''hi'')]) = Some [user_says (str ''hi'')]
   \<and> contexts_value (inject_chat_history (plugin_with (Some []) no_files) example_event
        (request_of [user_says (str ''hi'')])) = Some []"
  by (simp add: inject_chat_history_def inject_body_def plugin_with_def request_of_def
      contexts_or_empty_def clear_contexts_def execute_fetch_def most_recent_def
      contexts_value_def example_event_def config_inject_context_def config_max_history_def)

lemma contexts_value_logged: "contexts_value (st\<lparr>logged := l\<rparr>) = contexts_value st"
  by (simp add: contexts_value_def split: pyref.splits)


lemma hook_result:
  assumes en: "config_inject_context self" "0 < config_max_history self"
  shows "contexts_value (inject_chat_history self ev st) =
           (case req_contexts st of PyNone \<Rightarrow> None
            | ListRef a \<Rightarrow> Some (written self ev (config_max_history self)))"
proof (cases "req_contexts st")
  case PyNone
  from inject_body_PyNone[OF this, of self ev "config_max_history self"] show ?thesis
    using en PyNone
    by (cases "inject_body self ev (config_max_history self) st")
       (auto simp: inject_chat_history_def Let_def contexts_value_logged)
next
  case (ListRef a)
  from inject_body_ListRef[OF this, of self ev "config_max_history self"] show ?thesis
    using en ListRef
    by (cases "inject_body self ev (config_max_history self) st")
       (auto simp: inject_chat_history_def Let_def contexts_value_logged split: option.splits)
qed




text \<open>
  C3.  The newest row of the session is the image-only text with the marker of \<^verbatim>\<open>a.png\<close>,
  the file exists, and the framework supplied \<^verbatim>\<open>[{'role': 'user', 'content': 'look'}]\<close>.
  By the time step 4 scans \<^verbatim>\<open>current_turn_contexts\<close> that list is the request's own,
  emptied list: no user entry is found, nothing is replaced and no image is prepended, and
  the request leaves with an empty context.
\<close>

theorem current_turn_never_enhanced:
  "findall (image_marker (str ''a.png'')) = [str ''a.png'']
   \<and> strip (sub (image_marker (str ''a.png''))) = []
   \<and> path_to_base64 one_file (str ''a.png'') = Some (str ''data:image/png;base64,AA=='')
   \<and> contexts_value
        (inject_chat_history
           (plugin_with (Some [row_of (str ''u1'') (Some (str ''Alice'')) (image_marker (str ''a.png'')) 100])
              one_file)
           example_event (request_of [user_says (str ''look'')])) = Some []"
  by (simp add: inject_chat_history_def inject_body_def plugin_with_def request_of_def
      contexts_or_empty_def clear_contexts_def execute_fetch_def most_recent_def
      contexts_value_def example_event_def config_inject_context_def config_max_history_def
      row_of_def image_marker_def marker_open_def match_marker_def str_def strip_def
      path_to_base64_def one_file_def enhance_current_def target_index_def user_says_def)

section \<open>Collapse and flattening\<close>

lemma map_split_last: "xs \<noteq> [] \<Longrightarrow> map f xs = map f (butlast xs) @ [f (last xs)]"
  by (induction xs) auto

lemma parts_of_content: "content m = Some k \<Longrightarrow> parts_of m = as_list k"
  by (simp add: parts_of_def)

lemma merge_loop_roles:
  "merged \<noteq> [] \<Longrightarrow> merge_loop merged rest = Inr ys \<Longrightarrow>
   map role ys = butlast (map role merged) @ remdups_adj (role (last merged) # map role rest)"
proof (induction rest arbitrary: merged)
  case Nil
  then show ?case using map_split_last[of merged role] by (simp add: map_butlast)
next
  case (Cons c rest)
  from Cons.prems(2) obtain rc rl where r: "role c = Some rc" "role (last merged) = Some rl"
    by (auto simp: Let_def split: option.splits)
  show ?case
  proof (cases "rc = rl")
    case True
    with Cons.prems(2) r obtain lc cc where
      m: "merge_loop (butlast merged @ [(last merged)\<lparr>content := Some (Parts (as_list lc @ as_list cc))\<rparr>]) rest = Inr ys"
      by (auto simp: Let_def split: option.splits)
    from Cons.IH[OF _ m] show ?thesis using r True
      by (simp add: map_butlast)
  next
    case False
    with Cons.prems(2) r have m: "merge_loop (merged @ [c]) rest = Inr ys"
      by (auto simp: Let_def split: option.splits)
    have "butlast (map role merged) @ [role (last merged)] = map role merged"
      using Cons.prems(1) map_split_last[of merged role] by (simp add: map_butlast)
    with Cons.IH[OF _ m] show ?thesis using r False
      by simp
  qed
qed

lemma merge_loop_parts:
  "merged \<noteq> [] \<Longrightarrow> merge_loop merged rest = Inr ys \<Longrightarrow>
   concat (map parts_of ys) = concat (map parts_of merged) @ concat (map parts_of rest)"
proof (induction rest arbitrary: merged)
  case Nil
  then show ?case by simp
next
  case (Cons c rest)
  from Cons.prems(2) obtain rc rl where r: "role c = Some rc" "role (last merged) = Some rl"
    by (auto simp: Let_def split: option.splits)
  have bl: "concat (map parts_of merged) = concat (map parts_of (butlast merged)) @ parts_of (last merged)"
  proof -
    have "concat (map parts_of merged) = concat (map parts_of (butlast merged @ [last merged]))"
      using Cons.prems(1) by simp
    then show ?thesis by (simp del: append_butlast_last_id)
  qed
  show ?case
  proof (cases "rc = rl")
    case True
    with Cons.prems(2) r obtain lc cc where
      c: "content (last merged) = Some lc" "content c = Some cc" and
      m: "merge_loop (butlast merged @ [(last merged)\<lparr>content := Some (Parts (as_list lc @ as_list cc))\<rparr>]) rest = Inr ys"
      by (auto simp: Let_def split: option.splits)
    from Cons.IH[OF _ m] show ?thesis using c bl
      by (simp add: parts_of_content)
  next
    case False
    with Cons.prems(2) r have m: "merge_loop (merged @ [c]) rest = Inr ys"
      by (auto simp: Let_def split: option.splits)
    from Cons.IH[OF _ m] show ?thesis by simp
  qed
qed

lemma collapse_roles: "collapse xs = Inr ys \<Longrightarrow> map role ys = remdups_adj (map role xs)"
  by (cases xs) (auto simp: collapse_def dest: merge_loop_roles[rotated])

lemma collapse_parts: "collapse xs = Inr ys \<Longrightarrow> concat (map parts_of ys) = concat (map parts_of xs)"
  by (cases xs) (auto simp: collapse_def dest: merge_loop_parts[rotated])

lemma role_flatten_msg: "role (flatten_msg m) = role m"
  by (simp add: flatten_msg_def split: option.splits pycontent.splits)

lemma written_distinct_adj: "distinct_adj (map role (written self ev n))"
  by (auto simp: written_def role_flatten_msg comp_def dest!: collapse_roles
      split: sum.splits list.splits)

lemma roles_differ: "user_role \<noteq> assistant_role"
  by (simp add: user_role_def assistant_role_def str_def)

text \<open>The definitions that the evaluations at concrete inputs unfold.\<close>

lemmas eval_defs = inject_chat_history_def inject_body_def plugin_with_def request_of_def
      contexts_or_empty_def clear_contexts_def execute_fetch_def most_recent_def
      contexts_value_def example_event_def config_inject_context_def config_max_history_def
      row_of_def image_marker_def marker_open_def match_marker_def str_def strip_def isspace_def
      path_to_base64_def one_file_def no_files_def enhance_current_def target_index_def user_says_def
      decode_row_def history_content_def history_text_part_def role_of_def display_name_of_def
      truthy_def user_role_def assistant_role_def colon_space_def collapse_def flatten_msg_def
      alloc_def Let_def example_rows_def image_glyph_def user_sent_image_def

text \<open>
  C4.  The collapse leaves no two adjacent entries with the same role: the roles of the
  result are those of the input with adjacent repetitions removed, and the parts of the
  result, read in order, are the parts of the input in their original order.  Three turns
  with roles user, user, assistant give two entries, the first holding the parts of the
  first turn followed by those of the second.  The list the hook leaves in the request has
  no two adjacent entries with the same role.
\<close>

theorem collapse_correct:
  "(collapse xs = Inr ys \<longrightarrow>
      distinct_adj (map role ys) \<and> map role ys = remdups_adj (map role xs)
      \<and> concat (map parts_of ys) = concat (map parts_of xs))
   \<and> collapse [\<lparr>role = Some user_role, content = Some (Parts c1)\<rparr>,
                \<lparr>role = Some user_role, content = Some (Parts c2)\<rparr>,
                \<lparr>role = Some assistant_role, content = Some (Parts c3)\<rparr>]
       = Inr [\<lparr>role = Some user_role, content = Some (Parts (c1 @ c2))\<rparr>,
              \<lparr>role = Some assistant_role, content = Some (Parts c3)\<rparr>]
   \<and> (config_inject_context self \<and> 0 < config_max_history self
        \<and> contexts_value (inject_chat_history self ev st) = Some cs
      \<longrightarrow> distinct_adj (map role cs))"
proof -
  have a: "collapse xs = Inr ys \<longrightarrow>
      distinct_adj (map role ys) \<and> map role ys = remdups_adj (map role xs)
      \<and> concat (map parts_of ys) = concat (map parts_of xs)"
    using collapse_roles[of xs ys] collapse_parts[of xs ys] by simp
  have b: "collapse [\<lparr>role = Some user_role, content = Some (Parts c1)\<rparr>,
                \<lparr>role = Some user_role, content = Some (Parts c2)\<rparr>,
                \<lparr>role = Some assistant_role, content = Some (Parts c3)\<rparr>]
       = Inr [\<lparr>role = Some user_role, content = Some (Parts (c1 @ c2))\<rparr>,
              \<lparr>role = Some assistant_role, content = Some (Parts c3)\<rparr>]"
    by (simp add: collapse_def roles_differ roles_differ[symmetric] Let_def)
  have c: "config_inject_context self \<and> 0 < config_max_history self
        \<and> contexts_value (inject_chat_history self ev st) = Some cs
      \<longrightarrow> distinct_adj (map role cs)"
    using hook_result[of self ev st] written_distinct_adj[of self ev "config_max_history self"]
    by (auto split: pyref.splits)
  from a b c show ?thesis by blast
qed

theorem collapse_correct_witness:
  "collapse [\<lparr>role = Some user_role, content = Some (Parts [TextPart (str ''Alice: hi'')])\<rparr>,
             \<lparr>role = Some user_role, content = Some (Parts [TextPart (str ''Bob: yo'')])\<rparr>,
             \<lparr>role = Some assistant_role, content = Some (Parts [TextPart (str ''hello'')])\<rparr>]
     = Inr [\<lparr>role = Some user_role,
              content = Some (Parts [TextPart (str ''Alice: hi''), TextPart (str ''Bob: yo'')])\<rparr>,
            \<lparr>role = Some assistant_role, content = Some (Parts [TextPart (str ''hello'')])\<rparr>]
   \<and> distinct_adj [Some user_role, Some assistant_role]
   \<and> distinct_adj (map role
         [\<lparr>role = Some user_role,
                 content = Some (Parts [TextPart (str ''Alice: hi''), TextPart (str ''Bob: ''),
                    ImagePart (str ''data:image/png;base64,AA==''), TextPart (str ''yo'')])\<rparr>,
               \<lparr>role = Some assistant_role, content = Some (Str (str ''hello''))\<rparr>])
   \<and> config_inject_context (plugin_with (Some example_rows) one_file)
   \<and> 0 < config_max_history (plugin_with (Some example_rows) one_file)
   \<and> contexts_value (inject_chat_history (plugin_with (Some example_rows) one_file) example_event
         (request_of [user_says (str ''bye'')]))
       = Some [\<lparr>role = Some user_role,
                 content = Some (Parts [TextPart (str ''Alice: hi''), TextPart (str ''Bob: ''),
                    ImagePart (str ''data:image/png;base64,AA==''), TextPart (str ''yo'')])\<rparr>,
               \<lparr>role = Some assistant_role, content = Some (Str (str ''hello''))\<rparr>]"
proof -
  let ?xs = "[\<lparr>role = Some user_role, content = Some (Parts [TextPart (str ''Alice: hi'')])\<rparr>,
             \<lparr>role = Some user_role, content = Some (Parts [TextPart (str ''Bob: yo'')])\<rparr>,
             \<lparr>role = Some assistant_role, content = Some (Parts [TextPart (str ''hello'')])\<rparr>]"
  let ?ys = "[\<lparr>role = Some user_role,
              content = Some (Parts [TextPart (str ''Alice: hi''), TextPart (str ''Bob: yo'')])\<rparr>,
            \<lparr>role = Some assistant_role, content = Some (Parts [TextPart (str ''hello'')])\<rparr>]"
  let ?P = "plugin_with (Some example_rows) one_file"
  let ?S = "request_of [user_says (str ''bye'')]"
  let ?cs = "[\<lparr>role = Some user_role,
                 content = Some (Parts [TextPart (str ''Alice: hi''), TextPart (str ''Bob: ''),
                    ImagePart (str ''data:image/png;base64,AA==''), TextPart (str ''yo'')])\<rparr>,
               \<lparr>role = Some assistant_role, content = Some (Str (str ''hello''))\<rparr>]"
  have h1: "collapse ?xs = Inr ?ys"
    by (simp add: collapse_def Let_def user_role_def assistant_role_def str_def)
  have h2: "config_inject_context ?P" "0 < config_max_history ?P"
    by (simp_all add: config_inject_context_def config_max_history_def plugin_with_def)
  have h3: "contexts_value (inject_chat_history ?P example_event ?S) = Some ?cs"
    by (simp add: eval_defs)
  note inst = collapse_correct [where xs = "?xs" and ys = "?ys" and self = "?P"
      and ev = example_event and st = "?S" and cs = "?cs"]
  have "distinct_adj (map role ?ys)" using h1 inst by blast
  moreover have "distinct_adj (map role ?cs)" using h2 h3 inst by blast
  ultimately show ?thesis using h1 h2 h3 by simp
qed

text \<open>
  C8.  In the last loop an entry whose content is a list of text parts only gets the
  single string made of the texts joined by one space and trimmed; an entry whose list
  holds a part that is not a text part, an image, is left as it is.  The list written to
  the request is the collapsed list with every entry treated so.
\<close>

theorem flatten_pure_text:
  "(content m1 = Some (Parts ps1) \<and> list_all is_text ps1 \<longrightarrow>
      flatten_msg m1 = m1\<lparr>content := Some (Str (strip (join [32] (map part_text ps1))))\<rparr>)
   \<and> (content m2 = Some (Parts ps2) \<and> (\<exists>p \<in> set ps2. \<not> is_text p) \<longrightarrow> flatten_msg m2 = m2)
   \<and> (config_inject_context self \<and> 0 < config_max_history self
        \<and> req_contexts st = ListRef a
        \<and> execute_fetch (db_cursor self) (unified_msg_origin ev) (config_max_history self)
            = Inr (current_msg_row # rows)
        \<and> collapse (fst (decode_history (self_id ev) (images self) (rev rows))) = Inr merged
      \<longrightarrow> contexts_value (inject_chat_history self ev st) = Some (map flatten_msg merged))"
proof -
  have a: "content m1 = Some (Parts ps1) \<and> list_all is_text ps1 \<longrightarrow>
      flatten_msg m1 = m1\<lparr>content := Some (Str (strip (join [32] (map part_text ps1))))\<rparr>"
    by (simp add: flatten_msg_def)
  have b: "content m2 = Some (Parts ps2) \<and> (\<exists>p \<in> set ps2. \<not> is_text p) \<longrightarrow> flatten_msg m2 = m2"
    by (auto simp: flatten_msg_def list_all_iff)
  have c: "config_inject_context self \<and> 0 < config_max_history self
        \<and> req_contexts st = ListRef a
        \<and> execute_fetch (db_cursor self) (unified_msg_origin ev) (config_max_history self)
            = Inr (current_msg_row # rows)
        \<and> collapse (fst (decode_history (self_id ev) (images self) (rev rows))) = Inr merged
      \<longrightarrow> contexts_value (inject_chat_history self ev st) = Some (map flatten_msg merged)"
    using hook_result[of self ev st] by (auto simp: written_def)
  from a b c show ?thesis by blast
qed

theorem flatten_pure_text_witness:
  "flatten_msg \<lparr>role = Some user_role,
                 content = Some (Parts [TextPart (str ''Alice: hi''), TextPart (str ''Bob: yo'')])\<rparr>
     = \<lparr>role = Some user_role, content = Some (Str (str ''Alice: hi Bob: yo''))\<rparr>
   \<and> flatten_msg \<lparr>role = Some user_role,
                 content = Some (Parts [TextPart (str ''Bob: ''), ImagePart (str ''data:x''), TextPart (str ''yo'')])\<rparr>
     = \<lparr>role = Some user_role,
                 content = Some (Parts [TextPart (str ''Bob: ''), ImagePart (str ''data:x''), TextPart (str ''yo'')])\<rparr>
   \<and> contexts_value (inject_chat_history (plugin_with (Some example_rows) no_files) example_event
         (request_of [user_says (str ''bye'')]))
       = Some [\<lparr>role = Some user_role, content = Some (Str (str ''Alice: hi Bob: yo''))\<rparr>,
               \<lparr>role = Some assistant_role, content = Some (Str (str ''hello''))\<rparr>]"
proof -
  let ?m1 = "\<lparr>role = Some user_role,
                 content = Some (Parts [TextPart (str ''Alice: hi''), TextPart (str ''Bob: yo'')])\<rparr>"
  let ?m2 = "\<lparr>role = Some user_role,
                 content = Some (Parts [TextPart (str ''Bob: ''), ImagePart (str ''data:x''), TextPart (str ''yo'')])\<rparr>"
  let ?P = "plugin_with (Some example_rows) no_files"
  let ?S = "request_of [user_says (str ''bye'')]"
  let ?merged = "[?m1, \<lparr>role = Some assistant_role, content = Some (Parts [TextPart (str ''hello'')])\<rparr>]"
  have h1: "content ?m1 = Some (Parts [TextPart (str ''Alice: hi''), TextPart (str ''Bob: yo'')])
            \<and> list_all is_text [TextPart (str ''Alice: hi''), TextPart (str ''Bob: yo'')]"
    by simp
  have h2: "content ?m2 = Some (Parts [TextPart (str ''Bob: ''), ImagePart (str ''data:x''), TextPart (str ''yo'')])
            \<and> (\<exists>p \<in> set [TextPart (str ''Bob: ''), ImagePart (str ''data:x''), TextPart (str ''yo'')]. \<not> is_text p)"
    by simp
  have h3: "config_inject_context ?P \<and> 0 < config_max_history ?P
        \<and> req_contexts ?S = ListRef 0
        \<and> execute_fetch (db_cursor ?P) (unified_msg_origin example_event) (config_max_history ?P)
            = Inr (row_of (str ''u1'') (Some (str ''Alice'')) (str ''bye'') 103
                   # [row_of (str ''bot'') (Some (str ''assistant'')) (str ''hello'') 102,
                      row_of (str ''u2'') (Some (str ''Bob'')) (image_marker (str ''a.png'') @ str '' yo'') 101,
                      row_of (str ''u1'') (Some (str ''Alice'')) (str ''hi'') 100])
        \<and> collapse (fst (decode_history (self_id example_event) (images ?P)
              (rev [row_of (str ''bot'') (Some (str ''assistant'')) (str ''hello'') 102,
                      row_of (str ''u2'') (Some (str ''Bob'')) (image_marker (str ''a.png'') @ str '' yo'') 101,
                      row_of (str ''u1'') (Some (str ''Alice'')) (str ''hi'') 100]))) = Inr ?merged"
    by (simp add: eval_defs)
  from flatten_pure_text [where ?m1.0 = "?m1" and ?m2.0 = "?m2" and self = "?P" and st = "?S" and ev = example_event,
        THEN conjunct1, rule_format, OF h1]
  have r1: "flatten_msg ?m1 = ?m1\<lparr>content := Some (Str (strip (join [32]
       (map part_text [TextPart (str ''Alice: hi''), TextPart (str ''Bob: yo'')]))))\<rparr>" .
  from flatten_pure_text [where ?m1.0 = "?m1" and ?m2.0 = "?m2" and self = "?P" and st = "?S" and ev = example_event,
        THEN conjunct2, THEN conjunct1, rule_format, OF h2]
  have r2: "flatten_msg ?m2 = ?m2" .
  from flatten_pure_text [where ?m1.0 = "?m1" and ?m2.0 = "?m2" and self = "?P" and st = "?S" and ev = example_event,
        THEN conjunct2, THEN conjunct2, rule_format, OF h3]
  have r3: "contexts_value (inject_chat_history ?P example_event ?S) = Some (map flatten_msg ?merged)" .
  have j: "strip (join [32] (map part_text [TextPart (str ''Alice: hi''), TextPart (str ''Bob: yo'')]))
       = str ''Alice: hi Bob: yo''"
    by (simp add: strip_def isspace_def str_def)
  have f3: "flatten_msg \<lparr>role = Some assistant_role, content = Some (Parts [TextPart (str ''hello'')])\<rparr>
       = \<lparr>role = Some assistant_role, content = Some (Str (str ''hello''))\<rparr>"
    by (simp add: flatten_msg_def strip_def isspace_def str_def)
  show ?thesis using r1 r2 r3 j f3 by simp
qed

section \<open>Decoding history rows\<close>

lemma resolve_images_shape:
  "resolve_images files fs = [] \<or> (\<exists>u rest. resolve_images files fs = ImagePart u # rest)"
  by (induction fs) auto

lemma findall_Nil_sub: "findall s = [] \<Longrightarrow> sub s = s"
  by (induction s rule: findall.induct) (auto split: option.splits)

lemma user_sent_image_nonempty: "user_sent_image \<noteq> []"
  by (simp add: user_sent_image_def)

lemma history_text_part_nonempty:
  "findall text \<noteq> [] \<Longrightarrow> history_text_part text \<noteq> []"
  by (simp add: history_text_part_def Let_def user_sent_image_nonempty)

lemma history_content_shape:
  "history_content files text \<noteq> [] \<Longrightarrow>
   history_text_part text \<noteq> [] \<and>
   history_content files text = resolve_images files (findall text) @ [TextPart (history_text_part text)]"
proof -
  assume ne: "history_content files text \<noteq> []"
  have "history_text_part text \<noteq> []"
  proof (cases "findall text = []")
    case True
    with ne show ?thesis by (auto simp: history_content_def split: if_splits)
  next
    case False
    then show ?thesis by (rule history_text_part_nonempty)
  qed
  then show ?thesis by (simp add: history_content_def)
qed

lemma roles_differ2: "assistant_role \<noteq> user_role"
  by (simp add: user_role_def assistant_role_def str_def)

text \<open>
  C5 as stated fails.  The row of user Bob holds the marker of an existing file followed
  by the text \<^verbatim>\<open>yo\<close>.  Its content list is the image part and the text part \<^verbatim>\<open>yo\<close>; element
  0 is the image, so the name goes into a new leading text part and the text part \<^verbatim>\<open>yo\<close>
  keeps its text.
\<close>

theorem name_prefix_not_on_first_text:
  "history_content one_file (image_marker (str ''a.png'') @ str '' yo'')
     = [ImagePart (str ''data:image/png;base64,AA==''), TextPart (str ''yo'')]
   \<and> map_option fst (decode_row (str ''bot'') one_file
        (row_of (str ''u2'') (Some (str ''Bob'')) (image_marker (str ''a.png'') @ str '' yo'') 101))
     = Some \<lparr>role = Some user_role,
              content = Some (Parts [TextPart (str ''Bob: ''),
                 ImagePart (str ''data:image/png;base64,AA==''), TextPart (str ''yo'')])\<rparr>
   \<and> map_option fst (decode_row (str ''bot'') one_file
        (row_of (str ''u2'') (Some (str ''Bob'')) (image_marker (str ''a.png'') @ str '' yo'') 101))
     \<noteq> Some \<lparr>role = Some user_role,
              content = Some (Parts [ImagePart (str ''data:image/png;base64,AA==''),
                 TextPart (str ''Bob: yo'')])\<rparr>"
  by (simp add: eval_defs)

text \<open>
  C5, amended.  A user row that is not skipped ends with the text part of the row.  When no
  image of the row resolved, that text part is element 0 and gets the prefix
  \<^verbatim>\<open><name>: \<close>.  When an image resolved, element 0 is an image part: a new leading text
  part holding just \<^verbatim>\<open><name>: \<close> is inserted and the row's text part stays as it is.
\<close>

theorem name_prefix_rule:
  assumes user: "sender_id row \<noteq> bot_self_id"
    and decoded: "decode_row bot_self_id files row = Some (c, t)"
  shows "role c = Some user_role \<and>
         content c = Some (Parts
           (if resolve_images files (findall (message_text row)) = []
            then [TextPart (display_name_of (sender_name row) @ colon_space
                            @ history_text_part (message_text row))]
            else TextPart (display_name_of (sender_name row) @ colon_space)
                 # resolve_images files (findall (message_text row))
                 @ [TextPart (history_text_part (message_text row))]))"
proof -
  let ?imgs = "resolve_images files (findall (message_text row))"
  let ?tp = "history_text_part (message_text row)"
  let ?n = "display_name_of (sender_name row)"
  from decoded have ne: "history_content files (message_text row) \<noteq> []"
    by (auto simp: decode_row_def Let_def split: if_splits)
  from history_content_shape[OF ne]
  have hc: "history_content files (message_text row) = ?imgs @ [TextPart ?tp]" by simp
  from decoded user ne have c: "c = \<lparr>role = Some user_role,
       content = Some (Parts (prefix_name ?n (history_content files (message_text row))))\<rparr>"
    by (auto simp: decode_row_def Let_def role_of_def roles_differ2 split: if_splits)
  show ?thesis
  proof (cases "?imgs = []")
    case True
    then show ?thesis using c hc by simp
  next
    case False
    with resolve_images_shape[of files "findall (message_text row)"]
    obtain u rest where "?imgs = ImagePart u # rest" by blast
    then show ?thesis using c hc by simp
  qed
qed

theorem name_prefix_rule_witness:
  "sender_id (row_of (str ''u2'') (Some (str ''Bob'')) (image_marker (str ''a.png'') @ str '' yo'') 101)
     \<noteq> str ''bot''
   \<and> decode_row (str ''bot'') one_file
        (row_of (str ''u2'') (Some (str ''Bob'')) (image_marker (str ''a.png'') @ str '' yo'') 101)
     = Some (\<lparr>role = Some user_role,
              content = Some (Parts [TextPart (str ''Bob: ''),
                 ImagePart (str ''data:image/png;base64,AA==''), TextPart (str ''yo'')])\<rparr>,
             user_role, str ''Bob: '' @ image_glyph @ str '' yo'')
   \<and> resolve_images one_file
        (findall (message_text
           (row_of (str ''u2'') (Some (str ''Bob'')) (image_marker (str ''a.png'') @ str '' yo'') 101)))
       = [ImagePart (str ''data:image/png;base64,AA=='')]
   \<and> display_name_of (sender_name
           (row_of (str ''u2'') (Some (str ''Bob'')) (image_marker (str ''a.png'') @ str '' yo'') 101))
         @ colon_space = str ''Bob: ''"
proof -
  let ?row = "row_of (str ''u2'') (Some (str ''Bob'')) (image_marker (str ''a.png'') @ str '' yo'') 101"
  let ?c = "\<lparr>role = Some user_role,
              content = Some (Parts [TextPart (str ''Bob: ''),
                 ImagePart (str ''data:image/png;base64,AA==''), TextPart (str ''yo'')])\<rparr>"
  have h1: "sender_id ?row \<noteq> str ''bot''"
    by (simp add: row_of_def str_def)
  have h2: "decode_row (str ''bot'') one_file ?row
     = Some (?c, user_role, str ''Bob: '' @ image_glyph @ str '' yo'')"
    by (simp add: eval_defs)
  have h3: "resolve_images one_file (findall (message_text ?row))
       = [ImagePart (str ''data:image/png;base64,AA=='')]"
    by (simp add: eval_defs)
  have h4: "display_name_of (sender_name ?row) @ colon_space = str ''Bob: ''"
    by (simp add: eval_defs)
  from name_prefix_rule [OF h1 h2] have "role ?c = Some user_role" by blast
  then show ?thesis using h1 h2 h3 h4 by simp
qed

section \<open>The fetch\<close>

lemma most_recent_bounds:
  "length (most_recent rows sid lim) \<le> lim
   \<and> set (most_recent rows sid lim) \<subseteq> {r \<in> set rows. session_id r = sid}
   \<and> sorted (map (\<lambda>r. - timestamp r) (most_recent rows sid lim))"
proof -
  let ?s = "sort_key (\<lambda>r. - timestamp r) (filter (\<lambda>r. session_id r = sid) rows)"
  have "set (take lim ?s) \<subseteq> set ?s" by (rule set_take_subset)
  moreover have "sorted (map (\<lambda>r. - timestamp r) (take lim ?s))"
    by (simp add: take_map[symmetric] sorted_wrt_take del: take_map)
  ultimately show ?thesis by (auto simp: most_recent_def)
qed

text \<open>
  C7.  The bot's reply and the user's next message carry the same timestamp.  The query
  sorts on the timestamp alone, the tie comes out in insertion order, and the row split
  off as the current turn is the bot's reply, not the row inserted last.
\<close>

theorem current_row_not_latest_on_tie:
  "execute_fetch (Some tie_rows) (str ''s1'') 20
     = Inr [row_of (str ''bot'') (Some (str ''assistant'')) (str ''hello'') 100,
            row_of (str ''u1'') (Some (str ''Alice'')) (image_marker (str ''a.png'')) 100]
   \<and> last (filter (\<lambda>r. session_id r = str ''s1'') tie_rows)
     = row_of (str ''u1'') (Some (str ''Alice'')) (image_marker (str ''a.png'')) 100
   \<and> row_of (str ''bot'') (Some (str ''assistant'')) (str ''hello'') 100
     \<noteq> row_of (str ''u1'') (Some (str ''Alice'')) (image_marker (str ''a.png'')) 100"
  by (simp add: execute_fetch_def most_recent_def tie_rows_def row_of_def str_def)

section \<open>Normalizing and decoding again\<close>

lemma match_marker_image_marker:
  "f \<noteq> [] \<Longrightarrow> 93 \<notin> set f \<Longrightarrow> match_marker (image_marker f @ rest) = Some (f, rest)"
proof -
  assume ne: "f \<noteq> []" and nb: "93 \<notin> set f"
  have tw: "takeWhile (\<lambda>c. c \<noteq> 93) (f @ 93 # rest) = f"
    using nb by (induction f) auto
  have dw: "dropWhile (\<lambda>c. c \<noteq> 93) (f @ 93 # rest) = 93 # rest"
    using nb by (induction f) auto
  show ?thesis using ne tw dw
    by (simp add: match_marker_def image_marker_def Let_def)
qed

lemma findall_image_marker:
  "f \<noteq> [] \<Longrightarrow> 93 \<notin> set f \<Longrightarrow> findall (image_marker f @ rest) = f # findall rest"
proof -
  assume a: "f \<noteq> []" "93 \<notin> set f"
  obtain c cs where s: "image_marker f @ rest = c # cs"
    by (cases "image_marker f @ rest") (auto simp: image_marker_def marker_open_def)
  have "findall (c # cs) = f # findall rest"
    using match_marker_image_marker[OF a, of rest] s by simp
  then show ?thesis using s by simp
qed

lemma sub_image_marker:
  "f \<noteq> [] \<Longrightarrow> 93 \<notin> set f \<Longrightarrow> sub (image_marker f @ rest) = sub rest"
proof -
  assume a: "f \<noteq> []" "93 \<notin> set f"
  obtain c cs where s: "image_marker f @ rest = c # cs"
    by (cases "image_marker f @ rest") (auto simp: image_marker_def marker_open_def)
  have "sub (c # cs) = sub rest"
    using match_marker_image_marker[OF a, of rest] s by simp
  then show ?thesis using s by simp
qed

lemma no_match_other_head: "c \<noteq> 91 \<Longrightarrow> match_marker (c # cs) = None"
  by (simp add: match_marker_def marker_open_def)

lemma findall_skip: "c \<noteq> 91 \<Longrightarrow> findall (c # cs) = findall cs"
  by (simp add: no_match_other_head)

lemma sub_skip: "c \<noteq> 91 \<Longrightarrow> sub (c # cs) = c # sub cs"
  by (simp add: no_match_other_head)

lemma findall_hello_marker:
  "f \<noteq> [] \<Longrightarrow> 93 \<notin> set f \<Longrightarrow> findall (str ''hello '' @ image_marker f) = [f]"
  using findall_image_marker[of f "[]"] by (simp add: str_def findall_skip del: findall.simps(2))

lemma sub_hello_marker:
  "f \<noteq> [] \<Longrightarrow> 93 \<notin> set f \<Longrightarrow> sub (str ''hello '' @ image_marker f) = str ''hello ''"
  using sub_image_marker[of f "[]"] by (simp add: str_def sub_skip del: sub.simps(2))

lemma strip_hello: "strip (str ''hello '') = str ''hello''" "strip (str ''hello'') = str ''hello''"
  by (simp_all add: str_def strip_def isspace_def)

lemma normalize_hello_image:
  assumes dl: "download_image net url = Some f" and ne: "f \<noteq> []" and nb: "93 \<notin> set f"
  shows "process_message_chain net [Plain (str ''hello''), Image (Some url) None]
         = str ''hello '' @ image_marker f"
proof -
  from dl have u: "url \<noteq> []" by (auto simp: download_image_def split: if_splits)
  have last_ns: "\<not> isspace 93" by (simp add: isspace_def)
  have hne: "str ''hello'' \<noteq> []" by (simp add: str_def)
  have "process_message_chain net [Plain (str ''hello''), Image (Some url) None]
        = strip (str ''hello'' @ [32] @ image_marker f)"
    using dl u ne hne by (simp add: process_message_chain_def process_component_def py_or_def truthy_def
        strip_hello Let_def)
  also have "\<dots> = str ''hello '' @ image_marker f"
    using last_ns by (simp add: strip_def str_def isspace_def image_marker_def)
  finally show ?thesis .
qed

lemma dropWhile_id: "xs \<noteq> [] \<Longrightarrow> \<not> P (hd xs) \<Longrightarrow> dropWhile P xs = xs"
  by (cases xs) auto

lemma strip_idem: "strip (strip s) = strip s"
proof -
  let ?t = "dropWhile isspace s"
  let ?u = "dropWhile isspace (rev ?t)"
  show ?thesis
  proof (cases "?u = []")
    case True
    have e: "strip s = []" unfolding strip_def by (simp only: True rev.simps)
    have n: "strip [] = []" by (simp add: strip_def)
    show ?thesis by (simp only: e n)
  next
    case False
    then have hu: "\<not> isspace (hd ?u)" by (rule hd_dropWhile)
    have tne: "?t \<noteq> []"
    proof
      assume e: "?t = []"
      have "?u = []" by (simp only: e rev.simps dropWhile.simps)
      with False show False by contradiction
    qed
    then have ht: "\<not> isspace (hd ?t)" by (rule hd_dropWhile)
    have "rev ?t = takeWhile isspace (rev ?t) @ ?u" by simp
    then have "last (rev ?t) = last ?u" using False by (metis last_appendR)
    then have "last ?u = hd ?t" using tne by (simp add: last_rev)
    then have "hd (rev ?u) = hd ?t" using False by (simp add: hd_rev)
    then have a: "dropWhile isspace (rev ?u) = rev ?u"
      using ht False by (simp add: dropWhile_id)
    have b: "dropWhile isspace ?u = ?u" using hu False by (simp add: dropWhile_id)
    show ?thesis unfolding strip_def using a b by simp
  qed
qed

lemma download_example: "download_image saves_a_png example_url = Some (str ''a.png'')"
  by (simp add: download_image_def saves_a_png_def example_url_def startswith_def str_def)

text \<open>
  C6 as stated fails for a row written by a user.  The turn \<^verbatim>\<open>hello\<close> plus one image is
  stored as \<^verbatim>\<open>hello\<close>, a space and the marker of \<^verbatim>\<open>a.png\<close>; the file is deleted; the row of
  user Alice then decodes to the single text part \<^verbatim>\<open>Alice: hello\<close>, not to the text part
  \<^verbatim>\<open>hello\<close>.
\<close>

theorem round_trip_user_row_prefixed:
  "process_message_chain saves_a_png [Plain (str ''hello''), Image (Some example_url) None]
     = str ''hello '' @ image_marker (str ''a.png'')
   \<and> map_option fst (decode_row (str ''bot'') no_files
        (row_of (str ''u1'') (Some (str ''Alice'')) (str ''hello '' @ image_marker (str ''a.png'')) 100))
     = Some \<lparr>role = Some user_role, content = Some (Parts [TextPart (str ''Alice: hello'')])\<rparr>
   \<and> map_option fst (decode_row (str ''bot'') no_files
        (row_of (str ''u1'') (Some (str ''Alice'')) (str ''hello '' @ image_marker (str ''a.png'')) 100))
     \<noteq> Some \<lparr>role = Some user_role, content = Some (Parts [TextPart (str ''hello'')])\<rparr>"
proof -
  have a: "process_message_chain saves_a_png [Plain (str ''hello''), Image (Some example_url) None]
     = str ''hello '' @ image_marker (str ''a.png'')"
    using download_example
    by (simp add: process_message_chain_def process_component_def py_or_def truthy_def
        example_url_def strip_def isspace_def str_def image_marker_def marker_open_def)
  have b: "map_option fst (decode_row (str ''bot'') no_files
        (row_of (str ''u1'') (Some (str ''Alice'')) (str ''hello '' @ image_marker (str ''a.png'')) 100))
     = Some \<lparr>role = Some user_role, content = Some (Parts [TextPart (str ''Alice: hello'')])\<rparr>"
    by (simp add: eval_defs)
  have c: "str ''Alice: hello'' \<noteq> str ''hello''" by (simp add: str_def)
  have d: "map_option fst (decode_row (str ''bot'') no_files
        (row_of (str ''u1'') (Some (str ''Alice'')) (str ''hello '' @ image_marker (str ''a.png'')) 100))
     \<noteq> Some \<lparr>role = Some user_role, content = Some (Parts [TextPart (str ''hello'')])\<rparr>"
    unfolding b using c by simp
  show ?thesis by (intro conjI) (rule a, rule b, rule d)
qed

text \<open>
  C6, amended.  A turn made of the text \<^verbatim>\<open>hello\<close> and one image whose download succeeds
  under a name without \<^verbatim>\<open>]\<close> is stored as \<^verbatim>\<open>hello\<close>, a space and the marker.  The content
  list built from the stored text is the image part followed by the text part \<^verbatim>\<open>hello\<close>
  when the file exists, and the text part \<^verbatim>\<open>hello\<close> alone when it does not.  That list is
  the decoded content of a row of the bot; for a row of a user the name prefix is then
  applied: a leading text part \<^verbatim>\<open><name>: \<close> before the image when the file exists, the single
  text part \<^verbatim>\<open><name>: hello\<close> when it does not.
\<close>

theorem round_trip_hello_image:
  assumes dl: "download_image net url = Some f" and ne: "f \<noteq> []" and nb: "93 \<notin> set f"
    and stored: "message_text row
                 = process_message_chain net [Plain (str ''hello''), Image (Some url) None]"
  shows "message_text row = str ''hello '' @ image_marker f
    \<and> history_content files (message_text row)
        = (case files f of
             None \<Rightarrow> [TextPart (str ''hello'')]
           | Some body \<Rightarrow> [ImagePart (str ''data:'' @ body), TextPart (str ''hello'')])
    \<and> map_option fst (decode_row bot_self_id files row)
        = Some \<lparr>role = Some (role_of bot_self_id row),
                 content = Some (Parts
                   (if sender_id row = bot_self_id
                    then history_content files (message_text row)
                    else (case files f of
                            None \<Rightarrow> [TextPart (display_name_of (sender_name row) @ colon_space
                                               @ str ''hello'')]
                          | Some body \<Rightarrow> [TextPart (display_name_of (sender_name row) @ colon_space),
                                          ImagePart (str ''data:'' @ body),
                                          TextPart (str ''hello'')])))\<rparr>"
proof -
  have m: "message_text row = str ''hello '' @ image_marker f"
    using stored normalize_hello_image[OF dl ne nb] by simp
  have fa: "findall (message_text row) = [f]"
    using m findall_hello_marker[OF ne nb] by simp
  have hne: "str ''hello'' \<noteq> []" by (simp add: str_def)
  have tp: "history_text_part (message_text row) = str ''hello''"
    using m fa sub_hello_marker[OF ne nb] hne by (simp add: history_text_part_def strip_hello)
  have hc: "history_content files (message_text row)
        = (case files f of
             None \<Rightarrow> [TextPart (str ''hello'')]
           | Some body \<Rightarrow> [ImagePart (str ''data:'' @ body), TextPart (str ''hello'')])"
    using fa tp hne
    by (simp add: history_content_def path_to_base64_def truthy_def str_def split: option.splits)
  have d: "map_option fst (decode_row bot_self_id files row)
        = Some \<lparr>role = Some (role_of bot_self_id row),
                 content = Some (Parts
                   (if sender_id row = bot_self_id
                    then history_content files (message_text row)
                    else (case files f of
                            None \<Rightarrow> [TextPart (display_name_of (sender_name row) @ colon_space
                                               @ str ''hello'')]
                          | Some body \<Rightarrow> [TextPart (display_name_of (sender_name row) @ colon_space),
                                          ImagePart (str ''data:'' @ body),
                                          TextPart (str ''hello'')])))\<rparr>"
    using hc by (simp add: decode_row_def Let_def role_of_def roles_differ2 split: option.splits)
  from m hc d show ?thesis by blast
qed

theorem round_trip_hello_image_witness:
  "download_image saves_a_png example_url = Some (str ''a.png'')
   \<and> str ''a.png'' \<noteq> [] \<and> 93 \<notin> set (str ''a.png'')
   \<and> message_text (row_of (str ''u1'') (Some (str ''Alice''))
         (process_message_chain saves_a_png [Plain (str ''hello''), Image (Some example_url) None]) 100)
       = str ''hello '' @ image_marker (str ''a.png'')
   \<and> history_content one_file (str ''hello '' @ image_marker (str ''a.png''))
       = [ImagePart (str ''data:image/png;base64,AA==''), TextPart (str ''hello'')]
   \<and> history_content no_files (str ''hello '' @ image_marker (str ''a.png''))
       = [TextPart (str ''hello'')]"
proof -
  let ?row = "row_of (str ''u1'') (Some (str ''Alice''))
         (process_message_chain saves_a_png [Plain (str ''hello''), Image (Some example_url) None]) 100"
  have h1: "download_image saves_a_png example_url = Some (str ''a.png'')"
    by (rule download_example)
  have h2: "str ''a.png'' \<noteq> []" and h3: "93 \<notin> set (str ''a.png'')"
    by (simp_all add: str_def)
  have h4: "message_text ?row
        = process_message_chain saves_a_png [Plain (str ''hello''), Image (Some example_url) None]"
    by (simp add: row_of_def)
  note r1 = round_trip_hello_image [OF h1 h2 h3 h4, of one_file "str ''bot''"]
  note r2 = round_trip_hello_image [OF h1 h2 h3 h4, of no_files "str ''bot''"]
  have m: "message_text ?row = str ''hello '' @ image_marker (str ''a.png'')"
    using r1 by blast
  have e1: "one_file (str ''a.png'') = Some (str ''image/png;base64,AA=='')"
    by (simp add: one_file_def)
  have e2: "str ''data:'' @ str ''image/png;base64,AA=='' = str ''data:image/png;base64,AA==''"
    by (simp add: str_def)
  have e3: "no_files (str ''a.png'') = None"
    by (simp add: no_files_def)
  have c1: "history_content one_file (message_text ?row)
       = [ImagePart (str ''data:image/png;base64,AA==''), TextPart (str ''hello'')]"
    using r1 [THEN conjunct2, THEN conjunct1] by (simp only: e1 e2 option.case)
  have c2: "history_content no_files (message_text ?row) = [TextPart (str ''hello'')]"
    using r2 [THEN conjunct2, THEN conjunct1] by (simp only: e3 option.case)
  show ?thesis using h1 h2 h3 m c1 c2 by (simp only: simp_thms)
qed

text \<open>
  C10.  A history row whose text is not empty after trimming always has a non-empty content
  list, so the \<^verbatim>\<open>continue\<close> of the history loop is not taken for it.  A row with markers
  and no other text ends with the placeholder text part whatever images resolve, also
  when none does.  A row that \<^verbatim>\<open>_save_log_to_db\<close> inserts for a normalized chain has such a
  text: the normalizer's output is trimmed and an empty one is not inserted.
\<close>

theorem history_row_never_skipped:
  "(strip (message_text row) \<noteq> [] \<longrightarrow>
      history_content files (message_text row) \<noteq> []
      \<and> decode_row bot_self_id files row \<noteq> None)
   \<and> (findall msg \<noteq> [] \<and> strip (sub msg) = [] \<longrightarrow>
        history_content files msg = resolve_images files (findall msg) @ [TextPart user_sent_image])
   \<and> (save_log_to_db (Some rows) sid sender name (process_message_chain net chain) now = Some rows'
        \<and> rows' \<noteq> rows
      \<longrightarrow> rows' = rows @ [\<lparr>session_id = sid, sender_id = sender, sender_name = name,
                              message_text = process_message_chain net chain, timestamp = now\<rparr>]
          \<and> strip (process_message_chain net chain) \<noteq> [])"
proof -
  have a: "strip (message_text row) \<noteq> [] \<longrightarrow>
      history_content files (message_text row) \<noteq> []
      \<and> decode_row bot_self_id files row \<noteq> None"
  proof
    assume ne: "strip (message_text row) \<noteq> []"
    have tp: "history_text_part (message_text row) \<noteq> []"
    proof (cases "findall (message_text row) = []")
      case True
      then have "sub (message_text row) = message_text row" by (rule findall_Nil_sub)
      with True ne show ?thesis by (simp add: history_text_part_def)
    next
      case False
      then show ?thesis by (rule history_text_part_nonempty)
    qed
    then have hc: "history_content files (message_text row) \<noteq> []"
      by (simp add: history_content_def)
    then have "decode_row bot_self_id files row \<noteq> None"
      by (simp add: decode_row_def Let_def)
    with hc show "history_content files (message_text row) \<noteq> []
      \<and> decode_row bot_self_id files row \<noteq> None" by simp
  qed
  have b: "findall msg \<noteq> [] \<and> strip (sub msg) = [] \<longrightarrow>
        history_content files msg = resolve_images files (findall msg) @ [TextPart user_sent_image]"
    by (simp add: history_content_def history_text_part_def user_sent_image_nonempty)
  have c: "save_log_to_db (Some rows) sid sender name (process_message_chain net chain) now = Some rows'
        \<and> rows' \<noteq> rows
      \<longrightarrow> rows' = rows @ [\<lparr>session_id = sid, sender_id = sender, sender_name = name,
                              message_text = process_message_chain net chain, timestamp = now\<rparr>]
          \<and> strip (process_message_chain net chain) \<noteq> []"
  proof
    assume h: "save_log_to_db (Some rows) sid sender name (process_message_chain net chain) now = Some rows'
        \<and> rows' \<noteq> rows"
    then have ne: "process_message_chain net chain \<noteq> []"
      by (auto simp: save_log_to_db_def split: if_splits)
    with h have r: "rows' = rows @ [\<lparr>session_id = sid, sender_id = sender, sender_name = name,
                              message_text = process_message_chain net chain, timestamp = now\<rparr>]"
      by (auto simp: save_log_to_db_def)
    have "strip (process_message_chain net chain) = process_message_chain net chain"
      by (simp add: process_message_chain_def strip_idem)
    with ne r show "rows' = rows @ [\<lparr>session_id = sid, sender_id = sender, sender_name = name,
                              message_text = process_message_chain net chain, timestamp = now\<rparr>]
          \<and> strip (process_message_chain net chain) \<noteq> []" by simp
  qed
  from a b c show ?thesis by blast
qed

theorem history_row_never_skipped_witness:
  "strip (message_text (row_of (str ''u1'') (Some (str ''Alice'')) (image_marker (str ''a.png'')) 100)) \<noteq> []
   \<and> findall (image_marker (str ''a.png'')) \<noteq> []
   \<and> strip (sub (image_marker (str ''a.png''))) = []
   \<and> resolve_images no_files (findall (image_marker (str ''a.png''))) = []
   \<and> history_content no_files (image_marker (str ''a.png'')) = [TextPart user_sent_image]
   \<and> decode_row (str ''bot'') no_files
         (row_of (str ''u1'') (Some (str ''Alice'')) (image_marker (str ''a.png'')) 100) \<noteq> None
   \<and> save_log_to_db (Some []) (str ''s1'') (str ''u1'') (Some (str ''Alice''))
         (process_message_chain saves_a_png [Image (Some example_url) None]) 100
       = Some [row_of (str ''u1'') (Some (str ''Alice'')) (image_marker (str ''a.png'')) 100]
   \<and> strip (process_message_chain saves_a_png [Image (Some example_url) None]) \<noteq> []"
proof -
  let ?row = "row_of (str ''u1'') (Some (str ''Alice'')) (image_marker (str ''a.png'')) 100"
  let ?text = "image_marker (str ''a.png'')"
  let ?chain = "[Image (Some example_url) None]"
  have p: "process_message_chain saves_a_png ?chain = ?text"
    using download_example
    by (simp add: process_message_chain_def process_component_def py_or_def truthy_def
        example_url_def strip_def isspace_def str_def image_marker_def marker_open_def)
  have h1: "strip (message_text ?row) \<noteq> []"
    by (simp add: row_of_def strip_def isspace_def str_def image_marker_def marker_open_def)
  have h2: "findall ?text \<noteq> [] \<and> strip (sub ?text) = []"
    by (simp add: strip_def str_def image_marker_def marker_open_def match_marker_def)
  have h3: "save_log_to_db (Some []) (str ''s1'') (str ''u1'') (Some (str ''Alice''))
         (process_message_chain saves_a_png ?chain) 100 = Some [?row]
       \<and> [?row] \<noteq> []"
    unfolding p by (simp add: save_log_to_db_def row_of_def image_marker_def marker_open_def)
  have ri: "resolve_images no_files (findall ?text) = []"
    by (simp add: str_def image_marker_def marker_open_def match_marker_def no_files_def
        path_to_base64_def truthy_def)
  note inst = history_row_never_skipped [where row = "?row" and files = no_files
      and bot_self_id = "str ''bot''" and msg = "?text" and rows = "[]" and rows' = "[?row]"
      and sid = "str ''s1''" and sender = "str ''u1''" and name = "Some (str ''Alice'')"
      and net = saves_a_png and chain = "?chain" and now = 100]
  have c1: "decode_row (str ''bot'') no_files ?row \<noteq> None"
    using inst h1 by blast
  have c2: "history_content no_files ?text = resolve_images no_files (findall ?text) @ [TextPart user_sent_image]"
    using inst h2 by blast
  have c3: "strip (process_message_chain saves_a_png ?chain) \<noteq> []"
    using inst h3 by blast
  show ?thesis using h1 h2 h3 ri c1 c2 c3 by simp
qed

section \<open>Step 4 on the list it is given\<close>

text \<open>
  On a list that has a user entry with a content, step 4 replaces and prepends as its
  comments say.  In a run of the hook the list is empty by then, whatever the framework
  supplied, and the resulting context does not depend on the supplied entries.
\<close>

lemma scan_target_Some:
  "scan_target cs n = Some i \<Longrightarrow> i < n \<and> role (cs ! i) = Some user_role"
  by (induction n) (auto split: if_splits)

lemma target_index_Some:
  "target_index cs = Some i \<Longrightarrow> i < length cs \<and> role (cs ! i) = Some user_role"
  by (simp add: target_index_def scan_target_Some)

lemma enhance_current_on_list:
  assumes t: "target_index cs = Some i" and c: "content (cs ! i) = Some c"
  shows "enhance_current files text0 cs =
           Inr (if findall text0 = [] then cs
                else set_content cs i
                       (Parts (resolve_images files (findall text0)
                               @ (if strip (sub text0) = [] then [TextPart latest_only_image]
                                  else as_list c))))"
proof -
  from target_index_Some[OF t] have i: "i < length cs" by simp
  show ?thesis using t c i
    by (simp add: enhance_current_def set_content_def Let_def)
qed

lemma hook_drops_framework_entries:
  assumes "config_inject_context self" "0 < config_max_history self"
    and "req_contexts st = ListRef a" "req_contexts st' = ListRef a'"
  shows "contexts_value (inject_chat_history self ev st)
         = contexts_value (inject_chat_history self ev st')"
  using assms hook_result[of self ev st] hook_result[of self ev st'] by simp

end
